theory Spec2Isabelle
  imports Complex_Main "HOL-Library.AList"
begin

section \<open>Data model of \<open>src/App.tsx\<close>\<close>

text \<open>
  A TypeScript \<open>number\<close> that holds a count (\<open>misses\<close>, \<open>totalMisses\<close>,
  \<open>Players\<close>) is an \<open>int\<close>: the program only adds 1 to it, compares it and takes
  \<open>Math.max\<close>, all of which are exact on the integers a double represents. The value of
  \<open>Math.random()\<close> and the running threshold of the weighted draw are \<open>real\<close>.
  Rounding, \<open>NaN\<close> and the infinities of IEEE doubles are not modelled.

  The per-hand entry of the progress store, \<open>{ misses: number; lastMissedAt?: string }\<close>,
  is the record \<open>HandProgress\<close>; \<open>HandRecord\<close> has the same two fields and three more, so
  it extends it. An optional field is an \<open>option\<close>.
\<close>

record HandProgress =
  misses :: int
  lastMissedAt :: "string option"

record HandRecord = HandProgress +
  Hand :: string
  Color :: string
  Players :: int

text \<open>
  \<open>perHand: Record<string, ...>\<close> is an association list in insertion order, read with
  \<open>map_of\<close> and written with \<open>AList.update\<close> (an existing key keeps its place and
  gets the new value, a new key goes last), which is what the object spread with a
  computed key of \<open>handleAnswer\<close> does.
\<close>

record ProgressStore =
  totalMisses :: int
  perHand :: "(string \<times> HandProgress) list"

datatype AnswerStatus = idle | correct | incorrect

definition DEFAULT_PROGRESS :: ProgressStore where
  "DEFAULT_PROGRESS = \<lparr>totalMisses = 0, perHand = []\<rparr>"

definition ensureMinimumMisses :: "int \<Rightarrow> int" where
  "ensureMinimumMisses m = max 1 m"

section \<open>The weighted selector\<close>

text \<open>
  \<open>pickWeightedHand\<close>, lines 109-125. The \<open>reduce\<close> is \<open>totalWeight\<close>, the
  \<open>for\<close> loop is \<open>walk\<close> (\<open>None\<close> when the loop ends without returning), and the value
  of \<open>Math.random()\<close> is the parameter \<open>random\<close>.
\<close>

definition totalWeight :: "HandRecord list \<Rightarrow> int" where
  "totalWeight hands = foldl (\<lambda>sum hand. sum + ensureMinimumMisses (misses hand)) 0 hands"

fun walk :: "real \<Rightarrow> HandRecord list \<Rightarrow> HandRecord option" where
  "walk threshold [] = None"
| "walk threshold (hand # rest) =
     (let threshold' = threshold - real_of_int (ensureMinimumMisses (misses hand))
      in if threshold' \<le> 0 then Some hand else walk threshold' rest)"

definition pickWeightedHand :: "real \<Rightarrow> HandRecord list \<Rightarrow> HandRecord option" where
  "pickWeightedHand random hands =
     (if hands = [] then None
      else (case walk (random * real_of_int (totalWeight hands)) hands of
              Some hand \<Rightarrow> Some hand
            | None \<Rightarrow> Some (last hands)))"

section \<open>Values at run time and the persisted blob\<close>

text \<open>
  \<open>JSON.parse\<close> returns an arbitrary value, and the cast \<open>as ProgressStore\<close> of line 93
  checks nothing, so what \<open>loadProgressFromStorage\<close> handles and returns is a value of
  \<open>json\<close>. An object is the list of its own properties in order; \<open>map_of\<close> reads one.
\<close>

datatype json =
    JNull
  | JBool bool
  | JNum int
  | JStr string
  | JArr "json list"
  | JObj "(string \<times> json) list"

text \<open>
  The object that a typed value is at run time, which is also what \<open>JSON.stringify\<close>
  walks: a property whose value is \<open>undefined\<close> is the same as a missing one for every
  read of the program (\<open>saved?.lastMissedAt\<close>) and is left out by \<open>JSON.stringify\<close>.
\<close>

definition json_of_entry :: "HandProgress \<Rightarrow> json" where
  "json_of_entry e =
     JObj ((''misses'', JNum (misses e)) #
           (case lastMissedAt e of None \<Rightarrow> [] | Some t \<Rightarrow> [(''lastMissedAt'', JStr t)]))"

definition json_of_progress :: "ProgressStore \<Rightarrow> json" where
  "json_of_progress p =
     JObj [(''totalMisses'', JNum (totalMisses p)),
           (''perHand'', JObj (map (\<lambda>(k, e). (k, json_of_entry e)) (perHand p)))]"

text \<open>
  The persistence medium: \<open>NoWindow\<close> when \<open>typeof window === 'undefined'\<close>, otherwise
  the value of \<open>window.localStorage.getItem(LOCAL_STORAGE_KEY)\<close> (\<open>None\<close> is
  \<open>null\<close>). Reads and writes of the medium itself do not fail.
\<close>

datatype Storage = NoWindow | LocalStorage "string option"

datatype js_error = SyntaxError | TypeError

text \<open>
  \<open>parsed.name\<close> for the two names the program reads, \<open>totalMisses\<close> and \<open>perHand\<close>:
  reading a property of \<open>null\<close> throws a TypeError, an object gives its own property or
  \<open>undefined\<close> (\<open>None\<close>), and a boolean, number, string or array has no property of
  either name.
\<close>

fun getProp :: "json \<Rightarrow> string \<Rightarrow> js_error + json option" where
  "getProp JNull name = Inl TypeError"
| "getProp (JObj props) name = Inr (map_of props name)"
| "getProp v name = Inr None"

text \<open>\<open>a ?? b\<close>: \<open>b\<close> when \<open>a\<close> is \<open>undefined\<close> or \<open>null\<close>.\<close>

fun nullish :: "json option \<Rightarrow> json \<Rightarrow> json" where
  "nullish None b = b"
| "nullish (Some JNull) b = b"
| "nullish (Some a) b = a"

text \<open>
  \<open>loadProgressFromStorage\<close>, lines 82-102. \<open>JSON.parse\<close> is a function of the
  platform and a parameter here (\<open>None\<close> when it throws a SyntaxError).
  \<open>parseStored\<close> is the body of the \<open>try\<close>, \<open>Inl\<close> when it throws; the \<open>catch\<close> is
  in \<open>loadProgressFromStorage\<close>, whose own result is \<open>Inl\<close> if an error leaves it.
\<close>

definition parseStored :: "(string \<Rightarrow> json option) \<Rightarrow> string \<Rightarrow> js_error + json" where
  "parseStored JSON_parse raw =
     (case JSON_parse raw of
        None \<Rightarrow> Inl SyntaxError
      | Some parsed \<Rightarrow>
          (case getProp parsed ''totalMisses'' of
             Inl e \<Rightarrow> Inl e
           | Inr t \<Rightarrow>
               (case getProp parsed ''perHand'' of
                  Inl e \<Rightarrow> Inl e
                | Inr p \<Rightarrow>
                    Inr (JObj [(''totalMisses'', nullish t (JNum 0)),
                               (''perHand'', nullish p (JObj []))]))))"

definition loadProgressFromStorage ::
  "(string \<Rightarrow> json option) \<Rightarrow> Storage \<Rightarrow> js_error + json" where
  "loadProgressFromStorage JSON_parse window =
     (case window of
        NoWindow \<Rightarrow> Inr (json_of_progress DEFAULT_PROGRESS)
      | LocalStorage None \<Rightarrow> Inr (json_of_progress DEFAULT_PROGRESS)
      | LocalStorage (Some raw) \<Rightarrow>
          if raw = [] then Inr (json_of_progress DEFAULT_PROGRESS)
          else (case parseStored JSON_parse raw of
                  Inl error \<Rightarrow> Inr (json_of_progress DEFAULT_PROGRESS)
                | Inr loaded \<Rightarrow> Inr loaded))"

text \<open>\<open>persistProgress\<close>, lines 104-107; \<open>JSON.stringify\<close> is a parameter.\<close>

definition persistProgress :: "(json \<Rightarrow> string) \<Rightarrow> ProgressStore \<Rightarrow> Storage \<Rightarrow> Storage" where
  "persistProgress JSON_stringify progress window =
     (case window of
        NoWindow \<Rightarrow> NoWindow
      | LocalStorage old \<Rightarrow> LocalStorage (Some (JSON_stringify (json_of_progress progress))))"

section \<open>The session\<close>

text \<open>
  The state of the component \<open>App\<close> (lines 128-134) together with the persistence
  medium. A handler runs to completion on the state it was rendered with, so each
  \<open>setX(prev => ...)\<close> of a handler is applied to that state.
\<close>

record AppState =
  hands :: "HandRecord list"
  currentHand :: "HandRecord option"
  answerStatus :: AnswerStatus
  selectedValue :: "int option"
  progress :: ProgressStore
  storage :: Storage

text \<open>
  The function passed to \<open>updateProgress\<close> at lines 235-244; it closes over
  \<open>currentHand.Hand\<close>, \<open>incrementedMisses\<close> and \<open>timestamp\<close>.
\<close>

definition recordMiss :: "string \<Rightarrow> int \<Rightarrow> string \<Rightarrow> ProgressStore \<Rightarrow> ProgressStore" where
  "recordMiss key incrementedMisses timestamp prev =
     \<lparr>totalMisses = totalMisses prev + 1,
      perHand = AList.update key \<lparr>misses = incrementedMisses, lastMissedAt = Some timestamp\<rparr>
                  (perHand prev)\<rparr>"

text \<open>\<open>updateProgress\<close>, lines 136-142.\<close>

definition updateProgress ::
  "(json \<Rightarrow> string) \<Rightarrow> (ProgressStore \<Rightarrow> ProgressStore) \<Rightarrow> AppState \<Rightarrow> AppState" where
  "updateProgress JSON_stringify updater s =
     (let next = updater (progress s)
      in s\<lparr>progress := next, storage := persistProgress JSON_stringify next (storage s)\<rparr>)"

text \<open>
  \<open>handleAnswer\<close>, lines 212-246. \<open>now\<close> is the value of
  \<open>new Date().toISOString()\<close>.
\<close>

definition handleAnswer :: "(json \<Rightarrow> string) \<Rightarrow> string \<Rightarrow> int \<Rightarrow> AppState \<Rightarrow> AppState" where
  "handleAnswer JSON_stringify now value s =
     (case currentHand s of
        None \<Rightarrow> s
      | Some cur \<Rightarrow>
          if answerStatus s \<noteq> idle then s
          else
            let isCorrect = (value = Players cur);
                s1 = s\<lparr>selectedValue := Some value,
                       answerStatus := (if isCorrect then correct else incorrect)\<rparr>
            in if \<not> isCorrect then
                 let timestamp = now;
                     incrementedMisses = misses cur + 1;
                     s2 = s1\<lparr>hands :=
                            map (\<lambda>hand. if Hand hand = Hand cur
                                         then hand\<lparr>misses := incrementedMisses,
                                                   lastMissedAt := Some timestamp\<rparr>
                                         else hand)
                                (hands s1)\<rparr>;
                     s3 = s2\<lparr>currentHand :=
                            map_option (\<lambda>prev. prev\<lparr>misses := incrementedMisses,
                                                      lastMissedAt := Some timestamp\<rparr>)
                                       (currentHand s2)\<rparr>
                 in updateProgress JSON_stringify
                      (recordMiss (Hand cur) incrementedMisses timestamp) s3
               else s1)"

text \<open>\<open>handleNext\<close>, lines 248-253.\<close>

definition handleNext :: "real \<Rightarrow> AppState \<Rightarrow> AppState" where
  "handleNext random s =
     (if hands s = [] then s
      else s\<lparr>answerStatus := idle, selectedValue := None,
             currentHand := pickWeightedHand random (hands s)\<rparr>)"

text \<open>
  The end of \<open>bootstrap\<close>, lines 163-186, from the rows already parsed: \<open>bases\<close> are the
  \<open>base\<close> objects of line 171 (fetching, \<open>Papa.parse\<close> and \<open>Number\<close> are outside the
  model), \<open>storedProgress\<close> is the loaded store at its declared type.
\<close>

definition normalizeHand :: "ProgressStore \<Rightarrow> HandRecord \<Rightarrow> HandRecord" where
  "normalizeHand storedProgress base =
     (let saved = map_of (perHand storedProgress) (Hand base)
      in base\<lparr>misses := (case saved of None \<Rightarrow> misses base | Some e \<Rightarrow> misses e),
              lastMissedAt := (case saved of None \<Rightarrow> None | Some e \<Rightarrow> lastMissedAt e)\<rparr>)"

definition bootstrap :: "real \<Rightarrow> ProgressStore \<Rightarrow> HandRecord list \<Rightarrow> Storage \<Rightarrow> AppState" where
  "bootstrap random storedProgress bases window =
     (let normalizedHands = map (normalizeHand storedProgress) bases
      in \<lparr>hands = normalizedHands,
          currentHand = pickWeightedHand random normalizedHands,
          answerStatus = idle,
          selectedValue = None,
          progress = storedProgress,
          storage = window\<rparr>)"

text \<open>
  The states the program reaches: the state \<open>bootstrap\<close> sets, and what the two
  handlers make of such a state. \<open>in_sync\<close> is what they all satisfy: a record of the
  store, where there is one, has the count of every hand with its key, and the current
  hand is one of the hands.
\<close>

inductive reachable :: "AppState \<Rightarrow> bool" where
  reachable_bootstrap: "reachable (bootstrap random storedProgress bases window)"
| reachable_answer: "reachable s \<Longrightarrow> reachable (handleAnswer JSON_stringify now v s)"
| reachable_next: "reachable s \<Longrightarrow> reachable (handleNext random s)"

definition in_sync :: "AppState \<Rightarrow> bool" where
  "in_sync s =
     ((\<forall>h \<in> set (hands s). \<forall>e. map_of (perHand (progress s)) (Hand h) = Some e \<longrightarrow>
          misses e = misses h) \<and>
      (\<forall>cur. currentHand s = Some cur \<longrightarrow> cur \<in> set (hands s)))"

text \<open>
  The stores the program produces: \<open>DEFAULT_PROGRESS\<close>, and what the updater of
  \<open>handleAnswer\<close> makes of such a store.
\<close>

inductive produced :: "ProgressStore \<Rightarrow> bool" where
  produced_default: "produced DEFAULT_PROGRESS"
| produced_miss: "produced p \<Longrightarrow> produced (recordMiss key incrementedMisses timestamp p)"

section \<open>A reference implementation of the JSON functions\<close>

text \<open>
  \<open>JSON.stringify\<close> and \<open>JSON.parse\<close> are parameters of the definitions above. The
  theorems below hold for every implementation (under the stated assumption on it, where
  there is one); \<open>json_stringify\<close> and \<open>json_parse\<close> are an executable instance at
  which they are evaluated: the compact text \<open>JSON.stringify\<close> produces, with a
  backslash before a double quote or a backslash in strings, integers as numbers, and a
  later duplicate key of an object replacing the earlier one. \<open>CHR 0x22\<close> is the double quote and
  \<open>CHR 0x5C\<close> the backslash. The parser recurses on a fuel that bounds the nesting;
  twice the length of the text is enough for every text \<open>json_stringify\<close> writes.
\<close>

definition digit_char :: "nat \<Rightarrow> char" where
  "digit_char d = ''0123456789'' ! d"

fun nat_digits :: "nat \<Rightarrow> string" where
  "nat_digits n = (if n < 10 then [digit_char n] else nat_digits (n div 10) @ [digit_char (n mod 10)])"

definition int_text :: "int \<Rightarrow> string" where
  "int_text i = (if i < 0 then CHR ''-'' # nat_digits (nat (- i)) else nat_digits (nat i))"

fun escape :: "string \<Rightarrow> string" where
  "escape [] = []"
| "escape (c # cs) =
     (if c = CHR 0x22 \<or> c = CHR 0x5C then CHR 0x5C # c # escape cs else c # escape cs)"

definition quote :: "string \<Rightarrow> string" where
  "quote s = CHR 0x22 # escape s @ [CHR 0x22]"

fun join :: "string list \<Rightarrow> string" where
  "join [] = []"
| "join [x] = x"
| "join (x # y # ys) = x @ CHR '','' # join (y # ys)"

fun json_stringify :: "json \<Rightarrow> string" where
  "json_stringify JNull = ''null''"
| "json_stringify (JBool b) = (if b then ''true'' else ''false'')"
| "json_stringify (JNum n) = int_text n"
| "json_stringify (JStr s) = quote s"
| "json_stringify (JArr vs) = CHR ''['' # join (map json_stringify vs) @ '']''"
| "json_stringify (JObj ps) =
     CHR ''{'' # join (map (\<lambda>p. quote (fst p) @ CHR '':'' # json_stringify (snd p)) ps) @ ''}''"

definition is_digit :: "char \<Rightarrow> bool" where
  "is_digit c = (c \<in> set ''0123456789'')"

definition digit_val :: "char \<Rightarrow> nat" where
  "digit_val c = of_char c - 48"

fun parse_nat :: "nat \<Rightarrow> string \<Rightarrow> nat \<times> string" where
  "parse_nat acc [] = (acc, [])"
| "parse_nat acc (c # cs) =
     (if is_digit c then parse_nat (10 * acc + digit_val c) cs else (acc, c # cs))"

fun parse_string :: "string \<Rightarrow> (string \<times> string) option" where
  "parse_string [] = None"
| "parse_string (c # cs) =
     (if c = CHR 0x22 then Some ([], cs)
      else if c = CHR 0x5C then
        (case cs of
           [] \<Rightarrow> None
         | e # cs' \<Rightarrow>
             if e = CHR 0x22 \<or> e = CHR 0x5C
             then map_option (\<lambda>(s, r). (e # s, r)) (parse_string cs')
             else None)
      else map_option (\<lambda>(s, r). (c # s, r)) (parse_string cs))"

definition parse_int :: "string \<Rightarrow> (int \<times> string) option" where
  "parse_int cs =
     (case cs of
        [] \<Rightarrow> None
      | c # r \<Rightarrow>
          if c = CHR ''0'' then Some (0, r)
          else if is_digit c then (case parse_nat 0 cs of (n, r') \<Rightarrow> Some (int n, r'))
          else None)"

fun parse_value :: "nat \<Rightarrow> string \<Rightarrow> (json \<times> string) option"
and parse_elements :: "nat \<Rightarrow> string \<Rightarrow> (json list \<times> string) option"
and parse_members :: "nat \<Rightarrow> string \<Rightarrow> ((string \<times> json) list \<times> string) option" where
  "parse_value 0 cs = None"
| "parse_value (Suc n) cs =
     (case cs of
        [] \<Rightarrow> None
      | c # r \<Rightarrow>
          if c = CHR ''n'' then (if take 3 r = ''ull'' then Some (JNull, drop 3 r) else None)
          else if c = CHR ''t'' then (if take 3 r = ''rue'' then Some (JBool True, drop 3 r) else None)
          else if c = CHR ''f'' then (if take 4 r = ''alse'' then Some (JBool False, drop 4 r) else None)
          else if c = CHR 0x22 then map_option (\<lambda>(s, r'). (JStr s, r')) (parse_string r)
          else if c = CHR ''['' then
            (if take 1 r = '']'' then Some (JArr [], drop 1 r)
             else map_option (\<lambda>(vs, r'). (JArr vs, r')) (parse_elements n r))
          else if c = CHR ''{'' then
            (if take 1 r = ''}'' then Some (JObj [], drop 1 r)
             else map_option (\<lambda>(ps, r'). (JObj (foldl (\<lambda>acc (k, v). AList.update k v acc) [] ps), r'))
                    (parse_members n r))
          else if c = CHR ''-'' then map_option (\<lambda>(i, r'). (JNum (- i), r')) (parse_int r)
          else map_option (\<lambda>(i, r'). (JNum i, r')) (parse_int cs))"
| "parse_elements 0 cs = None"
| "parse_elements (Suc n) cs =
     (case parse_value n cs of
        None \<Rightarrow> None
      | Some (v, r) \<Rightarrow>
          (case r of
             [] \<Rightarrow> None
           | c # r' \<Rightarrow>
               if c = CHR '']'' then Some ([v], r')
               else if c = CHR '','' then map_option (\<lambda>(vs, r''). (v # vs, r'')) (parse_elements n r')
               else None))"
| "parse_members 0 cs = None"
| "parse_members (Suc n) cs =
     (case cs of
        [] \<Rightarrow> None
      | q # r0 \<Rightarrow>
          if q \<noteq> CHR 0x22 then None
          else
            (case parse_string r0 of
               None \<Rightarrow> None
             | Some (k, r1) \<Rightarrow>
                 (case r1 of
                    [] \<Rightarrow> None
                  | colon # r2 \<Rightarrow>
                      if colon \<noteq> CHR '':'' then None
                      else
                        (case parse_value n r2 of
                           None \<Rightarrow> None
                         | Some (v, r) \<Rightarrow>
                             (case r of
                                [] \<Rightarrow> None
                              | c # r' \<Rightarrow>
                                  if c = CHR ''}'' then Some ([(k, v)], r')
                                  else if c = CHR '','' then
                                    map_option (\<lambda>(ps, r''). ((k, v) # ps, r'')) (parse_members n r')
                                  else None)))))"

definition json_parse :: "string \<Rightarrow> json option" where
  "json_parse s =
     (case parse_value (2 * length s + 2) s of
        Some (v, []) \<Rightarrow> Some v
      | _ \<Rightarrow> None)"

text \<open>
  The values that the reference implementation reads back as they are: no object has a
  key twice. \<open>stops\<close> says that a text does not go on with a digit, so that a number in
  front of it ends there.
\<close>

fun wf_json :: "json \<Rightarrow> bool" where
  "wf_json (JArr vs) = (\<forall>v \<in> set vs. wf_json v)"
| "wf_json (JObj ps) = (distinct (map fst ps) \<and> (\<forall>p \<in> set ps. wf_json (snd p)))"
| "wf_json v = True"

definition stops :: "string \<Rightarrow> bool" where
  "stops rest = (rest = [] \<or> \<not> is_digit (hd rest))"

section \<open>Sample inputs\<close>

text \<open>
  The reference row of the end-to-end scenarios (\<open>Hand=AA\<close>, \<open>Color\<close> the three bytes
  of the UTF-8 text, \<open>Players=2\<close>, \<open>misses=1\<close>), a second hand, the state after
  \<open>bootstrap\<close> with no persisted progress, and a value of the clock.
\<close>

definition sample_hand :: HandRecord where
  "sample_hand = \<lparr>misses = ensureMinimumMisses 1, lastMissedAt = None, Hand = ''AA'',
                   Color = [CHR 0xE7, CHR 0xB4, CHR 0xBA], Players = 2\<rparr>"

definition sample_state :: AppState where
  "sample_state = bootstrap (1 / 2) DEFAULT_PROGRESS [sample_hand] (LocalStorage None)"

definition sample_now :: string where
  "sample_now = ''2026-01-01T00:00:00.000Z''"

text \<open>
  The state after a first miss and \<open>handleNext\<close>, where a record for \<open>AA\<close> exists, and
  a later value of the clock.
\<close>

definition sample_later :: string where
  "sample_later = ''2026-01-01T00:00:05.000Z''"

definition sample_state2 :: AppState where
  "sample_state2 = handleNext (1 / 2) (handleAnswer json_stringify sample_now 3 sample_state)"

definition sample_hands :: "HandRecord list" where
  "sample_hands = [sample_hand, sample_hand\<lparr>Hand := ''KK'', misses := 3\<rparr>]"

definition sample_progress :: ProgressStore where
  "sample_progress = recordMiss ''AA'' 2 sample_now DEFAULT_PROGRESS"

text \<open>A hand with a negative weight behind a hand of weight 3.\<close>

definition floor_hands :: "HandRecord list" where
  "floor_hands = [sample_hand\<lparr>misses := 3\<rparr>, sample_hand\<lparr>Hand := ''72o'', misses := - 5\<rparr>]"

text \<open>Two blobs without the full shape of a store.\<close>

definition partial_blob :: string where
  "partial_blob = ''{'' @ [CHR 0x22] @ ''totalMisses'' @ [CHR 0x22] @ '':5}''"

definition null_total_blob :: string where
  "null_total_blob =
     ''{'' @ [CHR 0x22] @ ''totalMisses'' @ [CHR 0x22] @ '':null,'' @
     [CHR 0x22] @ ''perHand'' @ [CHR 0x22] @ '':{'' @
     [CHR 0x22] @ ''AA'' @ [CHR 0x22] @ '':{'' @ [CHR 0x22] @ ''misses'' @ [CHR 0x22] @ '':2}}}''"

section \<open>Properties of the weighted selector\<close>

lemma walk_in_set: "walk t hs = Some h \<Longrightarrow> h \<in> set hs"
  by (induction hs arbitrary: t) (auto simp: Let_def split: if_splits)

text \<open>
  C2. For every non-empty list of hands, \<open>pickWeightedHand\<close> returns one of the hands of
  the list, whatever \<open>Math.random()\<close> returned and whatever the weights are; for the
  empty list it returns null.
\<close>

theorem pickWeightedHand_member:
  "pickWeightedHand random [] = None \<and>
   (hs \<noteq> [] \<longrightarrow> (\<exists>h. pickWeightedHand random hs = Some h \<and> h \<in> set hs))"
  by (auto simp: pickWeightedHand_def split: option.splits dest: walk_in_set)


theorem pickWeightedHand_member_witness:
  "pickWeightedHand (1 / 2) [] = None \<and> sample_hands \<noteq> [] \<and>
   pickWeightedHand (1 / 2) sample_hands = Some (sample_hand\<lparr>Hand := ''KK'', misses := 3\<rparr>) \<and>
   sample_hand\<lparr>Hand := ''KK'', misses := 3\<rparr> \<in> set sample_hands"
  using pickWeightedHand_member [of "1 / 2" sample_hands]
  by (simp add: sample_hands_def sample_hand_def pickWeightedHand_def totalWeight_def
      ensureMinimumMisses_def)

lemma foldl_weight:
  "foldl (\<lambda>sum hand. sum + ensureMinimumMisses (misses hand)) a hs =
     a + (\<Sum>hand\<leftarrow>hs. ensureMinimumMisses (misses hand))"
  by (induction hs arbitrary: a) simp_all

lemma totalWeight_sum_list:
  "totalWeight hs = (\<Sum>hand\<leftarrow>hs. ensureMinimumMisses (misses hand))"
  by (simp add: totalWeight_def foldl_weight)

lemma totalWeight_Nil: "totalWeight [] = 0"
  by (simp add: totalWeight_sum_list)

lemma totalWeight_Cons:
  "totalWeight (h # hs) = ensureMinimumMisses (misses h) + totalWeight hs"
  by (simp add: totalWeight_sum_list)

lemma totalWeight_append: "totalWeight (xs @ ys) = totalWeight xs + totalWeight ys"
  by (simp add: totalWeight_sum_list)

lemma ensureMinimumMisses_ge: "1 \<le> ensureMinimumMisses m"
  by (simp add: ensureMinimumMisses_def)

lemma totalWeight_nonneg: "0 \<le> totalWeight hs"
  using ensureMinimumMisses_ge
  by (induction hs) (simp_all add: totalWeight_Nil totalWeight_Cons add_nonneg_nonneg order_trans [of 0 1])

lemma walk_hit:
  "real_of_int (totalWeight pre) < t \<Longrightarrow>
   t \<le> real_of_int (totalWeight pre) + real_of_int (ensureMinimumMisses (misses h)) \<Longrightarrow>
   walk t (pre @ h # post) = Some h"
proof (induction pre arbitrary: t)
  case Nil
  then show ?case by (simp add: totalWeight_Nil)
next
  case (Cons p pre)
  have "0 \<le> real_of_int (totalWeight pre)"
    using totalWeight_nonneg [of pre] by simp
  with Cons.prems have pos: "\<not> t - real_of_int (ensureMinimumMisses (misses p)) \<le> 0"
    by (simp add: totalWeight_Cons)
  have "walk (t - real_of_int (ensureMinimumMisses (misses p))) (pre @ h # post) = Some h"
    using Cons.prems by (intro Cons.IH) (simp_all add: totalWeight_Cons)
  with pos show ?case by (simp add: Let_def)
qed

lemma pickWeightedHand_hit:
  assumes "i < length hs"
    and "real_of_int (totalWeight (take i hs)) < r * real_of_int (totalWeight hs)"
    and "r * real_of_int (totalWeight hs) \<le>
           real_of_int (totalWeight (take i hs)) + real_of_int (ensureMinimumMisses (misses (hs ! i)))"
  shows "pickWeightedHand r hs = Some (hs ! i)"
proof -
  have hs: "hs = take i hs @ hs ! i # drop (Suc i) hs"
    using assms(1) by (simp add: id_take_nth_drop)
  have "walk (r * real_of_int (totalWeight hs)) (take i hs @ hs ! i # drop (Suc i) hs) = Some (hs ! i)"
    using assms(2,3) by (rule walk_hit)
  with hs have "walk (r * real_of_int (totalWeight hs)) hs = Some (hs ! i)"
    by simp
  moreover have "hs \<noteq> []" using assms(1) by auto
  ultimately show ?thesis by (simp add: pickWeightedHand_def)
qed

lemma totalWeight_split:
  "i < length hs \<Longrightarrow>
   totalWeight hs =
     totalWeight (take i hs) + ensureMinimumMisses (misses (hs ! i)) + totalWeight (drop (Suc i) hs)"
proof -
  assume "i < length hs"
  then have "hs = take i hs @ hs ! i # drop (Suc i) hs"
    by (simp add: id_take_nth_drop)
  then have "totalWeight hs = totalWeight (take i hs @ hs ! i # drop (Suc i) hs)"
    by simp
  then show ?thesis
    by (simp add: totalWeight_append totalWeight_Cons)
qed

text \<open>
  C7. A hand whose weight is 0 or negative has the effective weight
  \<open>ensureMinimumMisses\<close> = \<open>max 1 weight\<close> = 1 in \<open>pickWeightedHand\<close>: it adds 1 to the
  total weight, and it is the hand returned for every draw \<open>r\<close> with
  \<open>before < r * total \<le> before + 1\<close>, where \<open>before\<close> is the total weight of the hands
  in front of it. These draws form an interval of length \<open>1 / total > 0\<close> inside
  \<open>[0, 1]\<close>, so the hand is selected with non-zero probability.
\<close>

theorem weight_floor_selectable:
  assumes "i < length hs" and "misses (hs ! i) \<le> 0"
  shows "ensureMinimumMisses (misses (hs ! i)) = 1 \<and>
         max 1 (misses (hs ! i)) = 1 \<and>
         totalWeight hs = totalWeight (take i hs) + 1 + totalWeight (drop (Suc i) hs) \<and>
         0 \<le> totalWeight (take i hs) \<and>
         totalWeight (take i hs) + 1 \<le> totalWeight hs \<and>
         (\<forall>r. real_of_int (totalWeight (take i hs)) < r * real_of_int (totalWeight hs) \<and>
              r * real_of_int (totalWeight hs) \<le> real_of_int (totalWeight (take i hs)) + 1 \<longrightarrow>
              pickWeightedHand r hs = Some (hs ! i))"
proof -
  have w: "ensureMinimumMisses (misses (hs ! i)) = 1"
    using assms(2) by (simp add: ensureMinimumMisses_def)
  have split: "totalWeight hs = totalWeight (take i hs) + 1 + totalWeight (drop (Suc i) hs)"
    using totalWeight_split [OF assms(1)] w by simp
  have le: "totalWeight (take i hs) + 1 \<le> totalWeight hs"
    using split totalWeight_nonneg [of "drop (Suc i) hs"] by simp
  have pick: "pickWeightedHand r hs = Some (hs ! i)"
    if "real_of_int (totalWeight (take i hs)) < r * real_of_int (totalWeight hs)"
      and "r * real_of_int (totalWeight hs) \<le> real_of_int (totalWeight (take i hs)) + 1" for r
    using assms(1) that w by (intro pickWeightedHand_hit) simp_all
  show ?thesis
    using w assms(2) split le pick totalWeight_nonneg [of "take i hs"] by simp
qed

theorem weight_floor_selectable_witness:
  "1 < length floor_hands \<and> misses (floor_hands ! 1) \<le> 0 \<and>
   ensureMinimumMisses (misses (floor_hands ! 1)) = 1 \<and>
   totalWeight floor_hands = 4 \<and>
   real_of_int (totalWeight (take 1 floor_hands)) < (7 / 8) * real_of_int (totalWeight floor_hands) \<and>
   (7 / 8) * real_of_int (totalWeight floor_hands) \<le> real_of_int (totalWeight (take 1 floor_hands)) + 1 \<and>
   pickWeightedHand (7 / 8) floor_hands = Some (sample_hand\<lparr>Hand := ''72o'', misses := - 5\<rparr>)"
  using weight_floor_selectable [of 1 floor_hands]
  by (simp add: floor_hands_def sample_hand_def totalWeight_def ensureMinimumMisses_def
      pickWeightedHand_def)

section \<open>Properties of the session\<close>

lemma handleAnswer_guard:
  "currentHand s = None \<or> answerStatus s \<noteq> idle \<Longrightarrow> handleAnswer S now v s = s"
  by (auto simp: handleAnswer_def split: option.splits)

lemma handleAnswer_correct:
  "currentHand s = Some cur \<Longrightarrow> answerStatus s = idle \<Longrightarrow> v = Players cur \<Longrightarrow>
   handleAnswer S now v s = s\<lparr>selectedValue := Some v, answerStatus := correct\<rparr>"
  by (simp add: handleAnswer_def)

lemma handleAnswer_incorrect:
  "currentHand s = Some cur \<Longrightarrow> answerStatus s = idle \<Longrightarrow> v \<noteq> Players cur \<Longrightarrow>
   handleAnswer S now v s =
     s\<lparr>selectedValue := Some v,
       answerStatus := incorrect,
       hands := map (\<lambda>hand. if Hand hand = Hand cur
                            then hand\<lparr>misses := misses cur + 1, lastMissedAt := Some now\<rparr>
                            else hand) (hands s),
       currentHand := Some (cur\<lparr>misses := misses cur + 1, lastMissedAt := Some now\<rparr>),
       progress := recordMiss (Hand cur) (misses cur + 1) now (progress s),
       storage := persistProgress S (recordMiss (Hand cur) (misses cur + 1) now (progress s))
                    (storage s)\<rparr>"
  by (simp add: handleAnswer_def updateProgress_def Let_def)

lemma recordMiss_total: "totalMisses (recordMiss k m t p) = totalMisses p + 1"
  by (simp add: recordMiss_def)

lemma recordMiss_lookup:
  "map_of (perHand (recordMiss k m t p)) =
     (map_of (perHand p))(k \<mapsto> \<lparr>misses = m, lastMissedAt = Some t\<rparr>)"
  by (simp add: recordMiss_def update_conv')


lemma pickWeightedHand_single: "pickWeightedHand r [h] = Some h"
  by (simp add: pickWeightedHand_def Let_def)

lemma sample_state_eq:
  "sample_state =
     \<lparr>hands = [sample_hand], currentHand = Some sample_hand, answerStatus = idle,
      selectedValue = None, progress = DEFAULT_PROGRESS, storage = LocalStorage None\<rparr>"
  by (simp add: sample_state_def bootstrap_def normalizeHand_def DEFAULT_PROGRESS_def
      pickWeightedHand_single Let_def sample_hand_def)

lemma pickWeightedHand_in_set: "pickWeightedHand r hs = Some h \<Longrightarrow> h \<in> set hs"
  by (auto simp: pickWeightedHand_def split: if_splits option.splits dest: walk_in_set)

lemma in_sync_bootstrap: "in_sync (bootstrap random storedProgress bases window)"
  by (auto simp: in_sync_def bootstrap_def normalizeHand_def Let_def
      dest: pickWeightedHand_in_set)

lemma in_sync_handleNext: "in_sync s \<Longrightarrow> in_sync (handleNext random s)"
  by (auto simp: in_sync_def handleNext_def dest: pickWeightedHand_in_set)

lemma in_sync_handleAnswer:
  assumes "in_sync s"
  shows "in_sync (handleAnswer JSON_stringify now v s)"
proof (cases "currentHand s")
  case None
  with assms show ?thesis by (simp add: handleAnswer_guard)
next
  case (Some cur)
  show ?thesis
  proof (cases "answerStatus s = idle")
    case False
    with assms show ?thesis by (simp add: handleAnswer_guard)
  next
    case True
    show ?thesis
    proof (cases "v = Players cur")
      case True
      with assms Some \<open>answerStatus s = idle\<close> show ?thesis
        by (simp add: handleAnswer_correct in_sync_def)
    next
      case False
      from assms Some have "cur \<in> set (hands s)" by (simp add: in_sync_def)
      then have "cur\<lparr>misses := misses cur + 1, lastMissedAt := Some now\<rparr> \<in>
                   (\<lambda>hand. if Hand hand = Hand cur
                            then hand\<lparr>misses := misses cur + 1, lastMissedAt := Some now\<rparr>
                            else hand) ` set (hands s)"
        by (rule rev_image_eqI) simp
      with assms Some True False show ?thesis
        by (auto simp: handleAnswer_incorrect in_sync_def recordMiss_lookup)
    qed
  qed
qed

lemma reachable_in_sync: "reachable s \<Longrightarrow> in_sync s"
  by (induction rule: reachable.induct)
    (simp_all add: in_sync_bootstrap in_sync_handleAnswer in_sync_handleNext)

lemma in_sync_current_record:
  "in_sync s \<Longrightarrow> currentHand s = Some cur \<Longrightarrow>
   map_of (perHand (progress s)) (Hand cur) = Some e \<Longrightarrow> misses e = misses cur"
  by (auto simp: in_sync_def)

lemma sample_state2_eq:
  "sample_state2 =
     \<lparr>hands = [sample_hand\<lparr>misses := 2, lastMissedAt := Some sample_now\<rparr>],
      currentHand = Some (sample_hand\<lparr>misses := 2, lastMissedAt := Some sample_now\<rparr>),
      answerStatus = idle,
      selectedValue = None,
      progress = \<lparr>totalMisses = 1,
                  perHand = [(''AA'', \<lparr>misses = 2, lastMissedAt = Some sample_now\<rparr>)]\<rparr>,
      storage = LocalStorage (Some (json_stringify (json_of_progress
                  \<lparr>totalMisses = 1,
                   perHand = [(''AA'', \<lparr>misses = 2, lastMissedAt = Some sample_now\<rparr>)]\<rparr>)))\<rparr>"
  by (simp add: sample_state2_def sample_state_eq handleAnswer_incorrect handleNext_def
      pickWeightedHand_single sample_hand_def DEFAULT_PROGRESS_def ensureMinimumMisses_def
      recordMiss_def persistProgress_def)

lemma reachable_sample_state: "reachable sample_state"
  unfolding sample_state_def by (rule reachable_bootstrap)

lemma reachable_sample_state2: "reachable sample_state2"
  unfolding sample_state2_def
  by (intro reachable_next reachable_answer reachable_sample_state)

text \<open>
  C1, as amended. When an incorrect answer is processed, the new store's total is the old
  total plus exactly 1, and the record of the current hand's key is created with the
  current hand's in-memory miss count plus 1 (2 for the reference row, whose weight is 1)
  when no record existed, or, in every state the program reaches, has its count
  incremented by 1 when a record existed, with the timestamp replaced by the given value;
  the records of the other keys are unchanged.
\<close>

theorem handleAnswer_records_miss:
  assumes "currentHand s = Some cur" and "answerStatus s = idle" and "v \<noteq> Players cur"
  shows "totalMisses (progress (handleAnswer S now v s)) = totalMisses (progress s) + 1 \<and>
         (map_of (perHand (progress s)) (Hand cur) = None \<longrightarrow>
            map_of (perHand (progress (handleAnswer S now v s))) (Hand cur) =
              Some \<lparr>misses = misses cur + 1, lastMissedAt = Some now\<rparr>) \<and>
         (reachable s \<longrightarrow>
            (\<forall>e. map_of (perHand (progress s)) (Hand cur) = Some e \<longrightarrow>
                 map_of (perHand (progress (handleAnswer S now v s))) (Hand cur) =
                   Some \<lparr>misses = misses e + 1, lastMissedAt = Some now\<rparr>)) \<and>
         (\<forall>k. k \<noteq> Hand cur \<longrightarrow>
              map_of (perHand (progress (handleAnswer S now v s))) k =
              map_of (perHand (progress s)) k)"
proof -
  have new: "map_of (perHand (progress (handleAnswer S now v s))) =
               (map_of (perHand (progress s)))
                 (Hand cur \<mapsto> \<lparr>misses = misses cur + 1, lastMissedAt = Some now\<rparr>)"
    using assms by (simp add: handleAnswer_incorrect recordMiss_lookup)
  have total: "totalMisses (progress (handleAnswer S now v s)) = totalMisses (progress s) + 1"
    using assms by (simp add: handleAnswer_incorrect recordMiss_total)
  have existed: "misses e = misses cur"
    if "reachable s" and "map_of (perHand (progress s)) (Hand cur) = Some e" for e
    using that assms(1) by (intro in_sync_current_record [of s cur e] reachable_in_sync)
  show ?thesis
    using total existed by (simp add: new)
qed

theorem handleAnswer_records_miss_witness:
  "currentHand sample_state = Some sample_hand \<and> answerStatus sample_state = idle \<and>
   3 \<noteq> Players sample_hand \<and>
   map_of (perHand (progress sample_state)) ''AA'' = None \<and>
   totalMisses (progress (handleAnswer json_stringify sample_now 3 sample_state)) = 1 \<and>
   map_of (perHand (progress (handleAnswer json_stringify sample_now 3 sample_state))) ''AA'' =
     Some \<lparr>misses = 2, lastMissedAt = Some sample_now\<rparr> \<and>
   reachable sample_state2 \<and>
   currentHand sample_state2 = Some (sample_hand\<lparr>misses := 2, lastMissedAt := Some sample_now\<rparr>) \<and>
   answerStatus sample_state2 = idle \<and>
   map_of (perHand (progress sample_state2)) ''AA'' =
     Some \<lparr>misses = 2, lastMissedAt = Some sample_now\<rparr> \<and>
   totalMisses (progress (handleAnswer json_stringify sample_later 3 sample_state2)) = 2 \<and>
   map_of (perHand (progress (handleAnswer json_stringify sample_later 3 sample_state2))) ''AA'' =
     Some \<lparr>misses = 3, lastMissedAt = Some sample_later\<rparr>"
proof -
  have first:
    "totalMisses (progress (handleAnswer json_stringify sample_now 3 sample_state)) = 1 \<and>
     map_of (perHand (progress (handleAnswer json_stringify sample_now 3 sample_state))) ''AA'' =
       Some \<lparr>misses = 2, lastMissedAt = Some sample_now\<rparr>"
    using handleAnswer_records_miss [of sample_state sample_hand 3 json_stringify sample_now]
    by (simp add: sample_state_eq sample_hand_def DEFAULT_PROGRESS_def ensureMinimumMisses_def)
  have second:
    "totalMisses (progress (handleAnswer json_stringify sample_later 3 sample_state2)) = 2 \<and>
     map_of (perHand (progress (handleAnswer json_stringify sample_later 3 sample_state2))) ''AA'' =
       Some \<lparr>misses = 3, lastMissedAt = Some sample_later\<rparr>"
    using handleAnswer_records_miss
            [of sample_state2 "sample_hand\<lparr>misses := 2, lastMissedAt := Some sample_now\<rparr>" 3
                json_stringify sample_later]
          reachable_sample_state2
    by (simp add: sample_state2_eq sample_hand_def)
  show ?thesis
    using first second reachable_sample_state2
    by (simp add: sample_state_eq sample_state2_eq sample_hand_def DEFAULT_PROGRESS_def)
qed

text \<open>
  C1 as stated fails: with no record for \<open>AA\<close> and the reference row's \<open>misses=1\<close>, the
  record created by the first miss has count 2, not 1.
\<close>

theorem first_miss_count_counterexample:
  "map_of (perHand (progress sample_state)) (Hand sample_hand) = None \<and>
   map_option misses
     (map_of (perHand (progress (handleAnswer json_stringify sample_now 3 sample_state)))
        (Hand sample_hand)) = Some 2 \<and>
   map_option misses
     (map_of (perHand (progress (handleAnswer json_stringify sample_now 3 sample_state)))
        (Hand sample_hand)) \<noteq> Some 1"
  by (simp add: sample_state_eq sample_hand_def DEFAULT_PROGRESS_def ensureMinimumMisses_def
      handleAnswer_def updateProgress_def recordMiss_def Let_def)

text \<open>
  C5. When no current hand exists or the answer status is not \<open>idle\<close>, \<open>handleAnswer\<close>
  leaves the whole state (session, hands, progress store, persisted blob) unchanged and
  raises nothing. Otherwise its result is one of two complete outcomes, with no state in
  between: the status and selection alone for a correct answer, or status, selection,
  hands, current hand, progress store and persisted blob together for an incorrect one.
\<close>

theorem handleAnswer_noop_or_complete:
  "(currentHand s = None \<or> answerStatus s \<noteq> idle \<longrightarrow> handleAnswer S now v s = s) \<and>
   (\<forall>cur. currentHand s = Some cur \<and> answerStatus s = idle \<longrightarrow>
      handleAnswer S now v s =
        (if v = Players cur
         then s\<lparr>selectedValue := Some v, answerStatus := correct\<rparr>
         else s\<lparr>selectedValue := Some v,
                answerStatus := incorrect,
                hands := map (\<lambda>hand. if Hand hand = Hand cur
                                     then hand\<lparr>misses := misses cur + 1,
                                               lastMissedAt := Some now\<rparr>
                                     else hand) (hands s),
                currentHand := Some (cur\<lparr>misses := misses cur + 1, lastMissedAt := Some now\<rparr>),
                progress := recordMiss (Hand cur) (misses cur + 1) now (progress s),
                storage := persistProgress S
                             (recordMiss (Hand cur) (misses cur + 1) now (progress s))
                             (storage s)\<rparr>))"
  by (auto simp: handleAnswer_guard handleAnswer_correct handleAnswer_incorrect)

theorem handleAnswer_noop_or_complete_witness:
  "answerStatus (sample_state\<lparr>answerStatus := correct\<rparr>) \<noteq> idle \<and>
   handleAnswer json_stringify sample_now 3 (sample_state\<lparr>answerStatus := correct\<rparr>) =
     sample_state\<lparr>answerStatus := correct\<rparr> \<and>
   currentHand (sample_state\<lparr>currentHand := None\<rparr>) = None \<and>
   handleAnswer json_stringify sample_now 3 (sample_state\<lparr>currentHand := None\<rparr>) =
     sample_state\<lparr>currentHand := None\<rparr> \<and>
   currentHand sample_state = Some sample_hand \<and> answerStatus sample_state = idle \<and>
   handleAnswer json_stringify sample_now 3 sample_state =
     \<lparr>hands = [sample_hand\<lparr>misses := 2, lastMissedAt := Some sample_now\<rparr>],
      currentHand = Some (sample_hand\<lparr>misses := 2, lastMissedAt := Some sample_now\<rparr>),
      answerStatus = incorrect,
      selectedValue = Some 3,
      progress = \<lparr>totalMisses = 1,
                  perHand = [(''AA'', \<lparr>misses = 2, lastMissedAt = Some sample_now\<rparr>)]\<rparr>,
      storage = LocalStorage (Some (json_stringify (json_of_progress
                  \<lparr>totalMisses = 1,
                   perHand = [(''AA'', \<lparr>misses = 2, lastMissedAt = Some sample_now\<rparr>)]\<rparr>)))\<rparr>"
  using handleAnswer_noop_or_complete
          [of "sample_state\<lparr>answerStatus := correct\<rparr>" json_stringify sample_now 3]
        handleAnswer_noop_or_complete
          [of "sample_state\<lparr>currentHand := None\<rparr>" json_stringify sample_now 3]
        handleAnswer_noop_or_complete [of sample_state json_stringify sample_now 3]
  by (simp add: sample_state_eq sample_hand_def DEFAULT_PROGRESS_def ensureMinimumMisses_def
      recordMiss_def persistProgress_def)

text \<open>
  C6. For every current hand, submitting the hand's own \<open>Players\<close> value leaves the
  hands and their weights, the current hand, the progress store with its total, and the
  persisted blob as they were, so nothing is written; when the status is \<open>idle\<close> the
  status becomes \<open>correct\<close> and the selected value the submitted one, and that is all
  that changes.
\<close>

theorem handleAnswer_correct_frame:
  assumes "currentHand s = Some cur"
  shows "hands (handleAnswer S now (Players cur) s) = hands s \<and>
         currentHand (handleAnswer S now (Players cur) s) = Some cur \<and>
         progress (handleAnswer S now (Players cur) s) = progress s \<and>
         storage (handleAnswer S now (Players cur) s) = storage s \<and>
         (answerStatus s = idle \<longrightarrow>
            answerStatus (handleAnswer S now (Players cur) s) = correct \<and>
            selectedValue (handleAnswer S now (Players cur) s) = Some (Players cur) \<and>
            handleAnswer S now (Players cur) s =
              s\<lparr>selectedValue := Some (Players cur), answerStatus := correct\<rparr>)"
proof (cases "answerStatus s = idle")
  case True
  with assms show ?thesis by (simp add: handleAnswer_correct)
next
  case False
  then have "handleAnswer S now (Players cur) s = s" by (simp add: handleAnswer_guard)
  with assms False show ?thesis by simp
qed

theorem handleAnswer_correct_frame_witness:
  "currentHand sample_state = Some sample_hand \<and> answerStatus sample_state = idle \<and>
   Players sample_hand = 2 \<and>
   handleAnswer json_stringify sample_now 2 sample_state =
     \<lparr>hands = [sample_hand], currentHand = Some sample_hand, answerStatus = correct,
      selectedValue = Some 2, progress = DEFAULT_PROGRESS, storage = LocalStorage None\<rparr> \<and>
   totalMisses (progress (handleAnswer json_stringify sample_now 2 sample_state)) = 0"
  using handleAnswer_correct_frame [of sample_state sample_hand json_stringify sample_now]
  by (simp add: sample_state_eq sample_hand_def DEFAULT_PROGRESS_def)

text \<open>
  C9. When an incorrect answer is processed for the current hand, the record stored for
  its key, every hand of the collection with that key, and the current hand all get the
  same miss count, the current hand's previous in-memory count plus 1, and the same
  timestamp; the other hands are unchanged, and the blob written to the persistence
  medium is the serialized new store.
\<close>

theorem handleAnswer_miss_consistent:
  assumes "currentHand s = Some cur" and "answerStatus s = idle" and "v \<noteq> Players cur"
  shows "map_of (perHand (progress (handleAnswer S now v s))) (Hand cur) =
           Some \<lparr>misses = misses cur + 1, lastMissedAt = Some now\<rparr> \<and>
         currentHand (handleAnswer S now v s) =
           Some (cur\<lparr>misses := misses cur + 1, lastMissedAt := Some now\<rparr>) \<and>
         length (hands (handleAnswer S now v s)) = length (hands s) \<and>
         (\<forall>i < length (hands s).
            hands (handleAnswer S now v s) ! i =
              (if Hand (hands s ! i) = Hand cur
               then (hands s ! i)\<lparr>misses := misses cur + 1, lastMissedAt := Some now\<rparr>
               else hands s ! i)) \<and>
         (\<forall>h \<in> set (hands (handleAnswer S now v s)).
            Hand h = Hand cur \<longrightarrow> misses h = misses cur + 1 \<and> lastMissedAt h = Some now) \<and>
         (\<forall>old. storage s = LocalStorage old \<longrightarrow>
            storage (handleAnswer S now v s) =
              LocalStorage (Some (S (json_of_progress (progress (handleAnswer S now v s))))))"
  using assms
  by (auto simp: handleAnswer_incorrect recordMiss_lookup persistProgress_def)

theorem handleAnswer_miss_consistent_witness:
  "currentHand sample_state = Some sample_hand \<and> answerStatus sample_state = idle \<and>
   3 \<noteq> Players sample_hand \<and>
   map_of (perHand (progress (handleAnswer json_stringify sample_now 3 sample_state))) ''AA'' =
     Some \<lparr>misses = 2, lastMissedAt = Some sample_now\<rparr> \<and>
   currentHand (handleAnswer json_stringify sample_now 3 sample_state) =
     Some (sample_hand\<lparr>misses := 2, lastMissedAt := Some sample_now\<rparr>) \<and>
   hands (handleAnswer json_stringify sample_now 3 sample_state) =
     [sample_hand\<lparr>misses := 2, lastMissedAt := Some sample_now\<rparr>]"
  using handleAnswer_miss_consistent [of sample_state sample_hand 3 json_stringify sample_now]
  by (simp add: sample_state_eq sample_hand_def DEFAULT_PROGRESS_def ensureMinimumMisses_def
      handleAnswer_incorrect recordMiss_def)

text \<open>
  C3. From the single reference row \<open>AA\<close> (\<open>Players=2\<close>, \<open>misses=1\<close>) and no persisted
  progress, whatever the draw and the colour: the loaded store is the empty one, and after
  \<open>bootstrap\<close> submitting 3 sets the status to \<open>incorrect\<close>, stores for \<open>AA\<close> a record
  with count 2 and the clock's (non-empty) timestamp, makes the total 1, and persists
  that store.
\<close>

theorem scenario_incorrect_answer:
  assumes "now \<noteq> []"
  shows "loadProgressFromStorage JSON_parse (LocalStorage None) =
           Inr (json_of_progress DEFAULT_PROGRESS) \<and>
         (let row = \<lparr>misses = ensureMinimumMisses 1, lastMissedAt = None, Hand = ''AA'',
                     Color = color, Players = 2\<rparr>;
              s0 = bootstrap random DEFAULT_PROGRESS [row] (LocalStorage None);
              s1 = handleAnswer S now 3 s0
          in currentHand s0 = Some row \<and>
             answerStatus s1 = incorrect \<and>
             (\<exists>t. map_of (perHand (progress s1)) ''AA'' = Some \<lparr>misses = 2, lastMissedAt = Some t\<rparr> \<and>
                  t \<noteq> []) \<and>
             totalMisses (progress s1) = 1 \<and>
             storage s1 = LocalStorage (Some (S (json_of_progress
               \<lparr>totalMisses = 1,
                perHand = [(''AA'', \<lparr>misses = 2, lastMissedAt = Some now\<rparr>)]\<rparr>))))"
  using assms
  by (simp add: loadProgressFromStorage_def bootstrap_def normalizeHand_def
      DEFAULT_PROGRESS_def pickWeightedHand_single Let_def ensureMinimumMisses_def
      handleAnswer_incorrect recordMiss_def persistProgress_def)

theorem scenario_incorrect_answer_witness:
  "sample_now \<noteq> [] \<and>
   answerStatus (handleAnswer json_stringify sample_now 3 sample_state) = incorrect \<and>
   map_of (perHand (progress (handleAnswer json_stringify sample_now 3 sample_state))) ''AA'' =
     Some \<lparr>misses = 2, lastMissedAt = Some ''2026-01-01T00:00:00.000Z''\<rparr> \<and>
   totalMisses (progress (handleAnswer json_stringify sample_now 3 sample_state)) = 1"
  using scenario_incorrect_answer
          [of sample_now json_parse "[CHR 0xE7, CHR 0xB4, CHR 0xBA]" "1 / 2" json_stringify]
  by (simp add: sample_state_eq sample_hand_def sample_now_def DEFAULT_PROGRESS_def
      ensureMinimumMisses_def handleAnswer_incorrect recordMiss_def)


section \<open>Properties of the persisted progress\<close>

lemma json_parse_not_json: "json_parse ''not json'' = None"
  by code_simp

lemma json_parse_partial_blob:
  "json_parse partial_blob = Some (JObj [(''totalMisses'', JNum 5)])"
  unfolding partial_blob_def by code_simp

lemma json_parse_null_total_blob:
  "json_parse null_total_blob =
     Some (JObj [(''totalMisses'', JNull),
                 (''perHand'', JObj [(''AA'', JObj [(''misses'', JNum 2)])])])"
  unfolding null_total_blob_def by code_simp

lemma json_of_DEFAULT_PROGRESS:
  "json_of_progress DEFAULT_PROGRESS = JObj [(''totalMisses'', JNum 0), (''perHand'', JObj [])]"
  by (simp add: json_of_progress_def DEFAULT_PROGRESS_def)


text \<open>
  C4. \<open>loadProgressFromStorage\<close> never lets an error out. When there is no window, no
  blob, an empty blob, or a blob that \<open>JSON.parse\<close> rejects, it returns
  \<open>DEFAULT_PROGRESS\<close>: total 0 and no per-hand record.
\<close>

theorem load_fails_soft:
  "(\<exists>loaded. loadProgressFromStorage JSON_parse window = Inr loaded) \<and>
   (window = NoWindow \<or> window = LocalStorage None \<or>
    (\<exists>raw. window = LocalStorage (Some raw) \<and> (raw = [] \<or> JSON_parse raw = None)) \<longrightarrow>
    loadProgressFromStorage JSON_parse window = Inr (json_of_progress DEFAULT_PROGRESS)) \<and>
   json_of_progress DEFAULT_PROGRESS = JObj [(''totalMisses'', JNum 0), (''perHand'', JObj [])]"
  by (auto simp: loadProgressFromStorage_def parseStored_def json_of_DEFAULT_PROGRESS
      split: Storage.splits option.splits sum.splits)

theorem load_fails_soft_witness:
  "json_parse ''not json'' = None \<and>
   loadProgressFromStorage json_parse (LocalStorage (Some ''not json'')) =
     Inr (JObj [(''totalMisses'', JNum 0), (''perHand'', JObj [])])"
  using load_fails_soft [of json_parse "LocalStorage (Some ''not json'')"] json_parse_not_json
  by simp

text \<open>
  C10, as amended. For a non-empty blob that \<open>JSON.parse\<close> accepts, whatever its shape,
  \<open>loadProgressFromStorage\<close> raises nothing and returns a store whose total is the
  blob's \<open>totalMisses\<close> field when that is present and not \<open>null\<close>, and 0 otherwise, and
  whose per-hand map is the blob's \<open>perHand\<close> field when that is present and not
  \<open>null\<close>, and empty otherwise. The fields of the blob are its own properties when it
  is an object; any other value has none.
\<close>

theorem load_partial_recovery:
  assumes "raw \<noteq> []" and "JSON_parse raw = Some parsed"
  shows "loadProgressFromStorage JSON_parse (LocalStorage (Some raw)) =
           Inr (JObj
             [(''totalMisses'',
               (case (case parsed of JObj props \<Rightarrow> map_of props ''totalMisses'' | _ \<Rightarrow> None) of
                  None \<Rightarrow> JNum 0
                | Some v \<Rightarrow> if v = JNull then JNum 0 else v)),
              (''perHand'',
               (case (case parsed of JObj props \<Rightarrow> map_of props ''perHand'' | _ \<Rightarrow> None) of
                  None \<Rightarrow> JObj []
                | Some v \<Rightarrow> if v = JNull then JObj [] else v))])"
proof (cases parsed)
  case JNull
  then show ?thesis
    using assms by (simp add: loadProgressFromStorage_def parseStored_def json_of_DEFAULT_PROGRESS)
next
  case (JObj props)
  have n: "nullish x d = (case x of None \<Rightarrow> d | Some v \<Rightarrow> if v = JNull then d else v)" for x d
    by (cases "(x, d)" rule: nullish.cases) auto
  show ?thesis
    using assms JObj by (simp add: loadProgressFromStorage_def parseStored_def n)
qed (use assms in \<open>simp_all add: loadProgressFromStorage_def parseStored_def\<close>)

theorem load_partial_recovery_witness:
  "partial_blob \<noteq> [] \<and> json_parse partial_blob = Some (JObj [(''totalMisses'', JNum 5)]) \<and>
   loadProgressFromStorage json_parse (LocalStorage (Some partial_blob)) =
     Inr (JObj [(''totalMisses'', JNum 5), (''perHand'', JObj [])])"
  using load_partial_recovery [of partial_blob json_parse "JObj [(''totalMisses'', JNum 5)]"]
        json_parse_partial_blob
  by (simp add: partial_blob_def)

text \<open>
  C10 as stated fails where a field is present with the value \<open>null\<close>: the blob
  \<open>{"totalMisses":null,"perHand":{"AA":{"misses":2}}}\<close> has a \<open>totalMisses\<close> field,
  and the loaded total is 0, not that field.
\<close>

theorem load_null_field_counterexample:
  "json_parse null_total_blob =
     Some (JObj [(''totalMisses'', JNull),
                 (''perHand'', JObj [(''AA'', JObj [(''misses'', JNum 2)])])]) \<and>
   loadProgressFromStorage json_parse (LocalStorage (Some null_total_blob)) =
     Inr (JObj [(''totalMisses'', JNum 0),
                (''perHand'', JObj [(''AA'', JObj [(''misses'', JNum 2)])])]) \<and>
   JNum 0 \<noteq> JNull"
  using json_parse_null_total_blob
  by (simp add: loadProgressFromStorage_def parseStored_def null_total_blob_def)

section \<open>The reference implementation reads back what it writes\<close>

declare nat_digits.simps [simp del]

lemma nat_digits_small: "n < 10 \<Longrightarrow> nat_digits n = [digit_char n]"
  by (subst nat_digits.simps) simp

lemma nat_digits_large:
  "\<not> n < 10 \<Longrightarrow> nat_digits n = nat_digits (n div 10) @ [digit_char (n mod 10)]"
  by (subst nat_digits.simps) simp

lemma digit_char_props:
  "d < 10 \<Longrightarrow> is_digit (digit_char d) \<and> digit_val (digit_char d) = d"
proof -
  assume "d < 10"
  then have "d \<in> {0,1,2,3,4,5,6,7,8,9}" by auto
  then show ?thesis
    by (auto simp: is_digit_def digit_char_def digit_val_def)
qed

lemma digit_char_zero: "d < 10 \<Longrightarrow> (digit_char d = CHR ''0'') = (d = 0)"
proof -
  assume "d < 10"
  then have "d \<in> {0,1,2,3,4,5,6,7,8,9}" by auto
  then show ?thesis
    by (auto simp: digit_char_def)
qed

lemma is_digit_not_special:
  "is_digit c \<Longrightarrow>
   c \<noteq> CHR ''n'' \<and> c \<noteq> CHR ''t'' \<and> c \<noteq> CHR ''f'' \<and> c \<noteq> CHR 0x22 \<and> c \<noteq> CHR ''['' \<and>
   c \<noteq> CHR ''{'' \<and> c \<noteq> CHR ''-'' \<and> c \<noteq> CHR '']'' \<and> c \<noteq> CHR ''}''"
  by (auto simp: is_digit_def)

lemma parse_nat_digits_gen:
  "parse_nat acc (nat_digits n @ rest) = parse_nat (acc * 10 ^ length (nat_digits n) + n) rest"
proof (induction n arbitrary: acc rest rule: nat_digits.induct)
  case (1 n)
  show ?case
  proof (cases "n < 10")
    case True
    then have "nat_digits n = [digit_char n]" by (rule nat_digits_small)
    then show ?thesis
      using digit_char_props [OF True] by (simp add: mult.commute)
  next
    case False
    have d: "n mod 10 < 10" by simp
    have nd: "nat_digits n = nat_digits (n div 10) @ [digit_char (n mod 10)]"
      using False by (rule nat_digits_large)
    have "parse_nat acc (nat_digits n @ rest) =
            parse_nat acc (nat_digits (n div 10) @ digit_char (n mod 10) # rest)"
      by (simp add: nd)
    also have "\<dots> = parse_nat (acc * 10 ^ length (nat_digits (n div 10)) + n div 10)
                        (digit_char (n mod 10) # rest)"
      by (rule "1.IH" [OF False])
    also have "\<dots> = parse_nat (10 * (acc * 10 ^ length (nat_digits (n div 10)) + n div 10) + n mod 10)
                        rest"
      using digit_char_props [OF d] by simp
    also have "10 * (acc * 10 ^ length (nat_digits (n div 10)) + n div 10) + n mod 10 =
               acc * 10 ^ length (nat_digits n) + n"
      by (simp add: nd algebra_simps)
    finally show ?thesis .
  qed
qed

lemma parse_nat_stop: "rest = [] \<or> \<not> is_digit (hd rest) \<Longrightarrow> parse_nat k rest = (k, rest)"
  by (cases rest) auto

lemma parse_nat_digits:
  "rest = [] \<or> \<not> is_digit (hd rest) \<Longrightarrow> parse_nat 0 (nat_digits n @ rest) = (n, rest)"
  by (simp add: parse_nat_digits_gen parse_nat_stop)

lemma nat_digits_hd:
  "\<exists>c cs. nat_digits n = c # cs \<and> is_digit c \<and> ((c = CHR ''0'') = (n = 0)) \<and> (n = 0 \<longrightarrow> cs = [])"
proof (induction n rule: nat_digits.induct)
  case (1 n)
  show ?case
  proof (cases "n < 10")
    case True
    then have "nat_digits n = [digit_char n]" by (rule nat_digits_small)
    then show ?thesis
      using digit_char_props [OF True] digit_char_zero [OF True] by simp
  next
    case False
    have nd: "nat_digits n = nat_digits (n div 10) @ [digit_char (n mod 10)]"
      using False by (rule nat_digits_large)
    from "1.IH" [OF False] obtain c cs where
      h: "nat_digits (n div 10) = c # cs" "is_digit c" "(c = CHR ''0'') = (n div 10 = 0)"
        "n div 10 = 0 \<longrightarrow> cs = []"
      by auto
    from False have "n div 10 \<noteq> 0" by simp
    with h nd False show ?thesis by auto
  qed
qed

lemma parse_int_digits:
  assumes "rest = [] \<or> \<not> is_digit (hd rest)"
  shows "parse_int (nat_digits n @ rest) = Some (int n, rest)"
proof -
  obtain c cs where h: "nat_digits n = c # cs" "is_digit c" "(c = CHR ''0'') = (n = 0)"
    "n = 0 \<longrightarrow> cs = []"
    using nat_digits_hd [of n] by auto
  show ?thesis
  proof (cases "n = 0")
    case True
    with h show ?thesis by (simp add: parse_int_def)
  next
    case False
    have "parse_nat 0 (nat_digits n @ rest) = (n, rest)"
      using assms by (rule parse_nat_digits)
    with h False show ?thesis
      by (simp add: parse_int_def)
  qed
qed

lemma parse_string_escape:
  "parse_string (escape s @ CHR 0x22 # rest) = Some (s, rest)"
  by (induction s) auto


lemma stops_simps [simp]:
  "stops []" "stops (CHR '','' # r)" "stops (CHR '']'' # r)" "stops (CHR ''}'' # r)"
  by (simp_all add: stops_def is_digit_def)

lemma parse_value_num:
  assumes "stops rest"
  shows "parse_value (Suc n) (int_text i @ rest) = Some (JNum i, rest)"
proof (cases "i < 0")
  case True
  have "parse_int (nat_digits (nat (- i)) @ rest) = Some (int (nat (- i)), rest)"
    using assms unfolding stops_def by (rule parse_int_digits)
  with True show ?thesis
    by (simp add: int_text_def)
next
  case False
  obtain c cs where h: "nat_digits (nat i) = c # cs" "is_digit c"
    using nat_digits_hd [of "nat i"] by auto
  have "parse_int (nat_digits (nat i) @ rest) = Some (int (nat i), rest)"
    using assms unfolding stops_def by (rule parse_int_digits)
  with False h is_digit_not_special [OF h(2)] show ?thesis
    by (simp add: int_text_def)
qed

lemma parse_value_str: "parse_value (Suc n) (quote s @ rest) = Some (JStr s, rest)"
  by (simp add: quote_def parse_string_escape)

lemma json_stringify_hd: "\<exists>c cs. json_stringify v = c # cs \<and> c \<noteq> CHR '']''"
proof (cases v)
  case (JNum i)
  obtain c cs where h: "nat_digits (nat (- i)) = c # cs" by (meson nat_digits_hd)
  obtain c' cs' where h': "nat_digits (nat i) = c' # cs'" "is_digit c'"
    using nat_digits_hd [of "nat i"] by auto
  show ?thesis
    using JNum h h' is_digit_not_special [OF h'(2)] by (simp add: int_text_def)
qed (simp_all add: quote_def)


lemma parse_elements_stringify:
  assumes "\<And>v fuel rest. v \<in> set vs \<Longrightarrow> 2 * length (json_stringify v) < fuel \<Longrightarrow> stops rest \<Longrightarrow>
             parse_value fuel (json_stringify v @ rest) = Some (v, rest)"
    and "vs \<noteq> []"
    and "2 * length (join (map json_stringify vs)) + 1 < fuel"
  shows "parse_elements fuel (join (map json_stringify vs) @ CHR '']'' # rest) = Some (vs, rest)"
  using assms
proof (induction vs arbitrary: fuel)
  case Nil
  then show ?case by simp
next
  case (Cons v vs)
  from Cons.prems(3) obtain n where fuel: "fuel = Suc n" by (cases fuel) auto
  show ?case
  proof (cases vs)
    case Nil
    have "parse_value n (json_stringify v @ CHR '']'' # rest) = Some (v, CHR '']'' # rest)"
      using Cons.prems(3) Nil fuel by (intro Cons.prems(1)) simp_all
    with Nil fuel show ?thesis by simp
  next
    case (Cons w ws)
    let ?tail = "join (map json_stringify vs) @ CHR '']'' # rest"
    have jn: "join (map json_stringify (v # vs)) = json_stringify v @ CHR '','' # join (map json_stringify vs)"
      using Cons by simp
    have "parse_value n (json_stringify v @ CHR '','' # ?tail) = Some (v, CHR '','' # ?tail)"
      using Cons.prems(3) fuel jn by (intro Cons.prems(1)) simp_all
    moreover have "parse_elements n ?tail = Some (vs, rest)"
      using Cons.prems(1,3) fuel jn Cons by (intro Cons.IH) simp_all
    ultimately show ?thesis using fuel jn by simp
  qed
qed

lemma parse_members_stringify:
  assumes "\<And>p fuel rest. p \<in> set ps \<Longrightarrow> 2 * length (json_stringify (snd p)) < fuel \<Longrightarrow> stops rest \<Longrightarrow>
             parse_value fuel (json_stringify (snd p) @ rest) = Some (snd p, rest)"
    and "ps \<noteq> []"
    and "2 * length (join (map (\<lambda>p. quote (fst p) @ CHR '':'' # json_stringify (snd p)) ps)) + 1 < fuel"
  shows "parse_members fuel
           (join (map (\<lambda>p. quote (fst p) @ CHR '':'' # json_stringify (snd p)) ps) @ CHR ''}'' # rest) =
         Some (ps, rest)"
  using assms
proof (induction ps arbitrary: fuel)
  case Nil
  then show ?case by simp
next
  case (Cons p ps)
  let ?m = "\<lambda>p. quote (fst p) @ CHR '':'' # json_stringify (snd p)"
  obtain k v where p: "p = (k, v)" by (cases p)
  from Cons.prems(3) obtain n where fuel: "fuel = Suc n" by (cases fuel) auto
  show ?case
  proof (cases ps)
    case Nil
    have "parse_value n (json_stringify v @ CHR ''}'' # rest) = Some (v, CHR ''}'' # rest)"
      using Cons.prems(1) [of p n "CHR ''}'' # rest"] Cons.prems(3) Nil fuel p by simp
    with Nil fuel p show ?thesis
      by (simp add: quote_def parse_string_escape)
  next
    case (Cons q qs)
    let ?tail = "join (map ?m ps) @ CHR ''}'' # rest"
    have jn: "join (map ?m (p # ps)) = ?m p @ CHR '','' # join (map ?m ps)"
      using Cons by simp
    have "parse_value n (json_stringify v @ CHR '','' # ?tail) = Some (v, CHR '','' # ?tail)"
      using Cons.prems(1) [of p n "CHR '','' # ?tail"] Cons.prems(3) fuel jn p by simp
    moreover have "parse_members n ?tail = Some (ps, rest)"
      using Cons.prems(1,3) fuel jn Cons by (intro Cons.IH) simp_all
    ultimately show ?thesis using fuel jn p
      by (simp add: quote_def parse_string_escape)
  qed
qed

lemma update_new_key: "k \<notin> fst ` set al \<Longrightarrow> AList.update k v al = al @ [(k, v)]"
  by (induction al) auto

lemma foldl_update_distinct:
  "distinct (map fst (acc @ ps)) \<Longrightarrow>
   foldl (\<lambda>acc (k, v). AList.update k v acc) acc ps = acc @ ps"
proof (induction ps arbitrary: acc)
  case Nil
  then show ?case by simp
next
  case (Cons p ps)
  obtain k v where p: "p = (k, v)" by (cases p)
  have "AList.update k v acc = acc @ [(k, v)]"
    using Cons.prems p by (intro update_new_key) auto
  moreover have "foldl (\<lambda>acc (k, v). AList.update k v acc) (acc @ [(k, v)]) ps = (acc @ [(k, v)]) @ ps"
    using Cons.prems p by (intro Cons.IH) simp
  ultimately show ?case using p by simp
qed

lemma parse_value_stringify:
  "wf_json j \<Longrightarrow> 2 * length (json_stringify j) < fuel \<Longrightarrow> stops rest \<Longrightarrow>
   parse_value fuel (json_stringify j @ rest) = Some (j, rest)"
proof (induction j arbitrary: fuel rest)
  case JNull
  then obtain n where "fuel = Suc n" by (cases fuel) auto
  then show ?case by simp
next
  case (JBool b)
  then obtain n where "fuel = Suc n" by (cases fuel) auto
  then show ?case by simp
next
  case (JNum i)
  then obtain n where "fuel = Suc n" by (cases fuel) auto
  with JNum show ?case by (simp add: parse_value_num del: parse_value.simps)
next
  case (JStr s)
  then obtain n where "fuel = Suc n" by (cases fuel) auto
  then show ?case by (simp add: parse_value_str del: parse_value.simps)
next
  case (JArr vs)
  from JArr.prems obtain n where fuel: "fuel = Suc n" by (cases fuel) auto
  show ?case
  proof (cases "vs = []")
    case True
    with fuel show ?thesis by simp
  next
    case False
    then obtain v vs' where vs: "vs = v # vs'" by (cases vs) auto
    obtain c cs where hd: "json_stringify v = c # cs" "c \<noteq> CHR '']''"
      using json_stringify_hd by blast
    have first: "\<exists>cs'. join (map json_stringify vs) = c # cs'"
      using vs hd by (cases vs') simp_all
    have "parse_elements n (join (map json_stringify vs) @ CHR '']'' # rest) = Some (vs, rest)"
    proof (rule parse_elements_stringify)
      show "vs \<noteq> []" by (rule False)
      show "2 * length (join (map json_stringify vs)) + 1 < n"
        using JArr.prems(2) fuel by simp
      show "parse_value fuel' (json_stringify v' @ rest') = Some (v', rest')"
        if "v' \<in> set vs" "2 * length (json_stringify v') < fuel'" "stops rest'" for v' fuel' rest'
        using that JArr.prems(1) by (intro JArr.IH) simp_all
    qed
    with first hd fuel show ?thesis by auto
  qed
next
  case (JObj ps)
  let ?m = "\<lambda>p. quote (fst p) @ CHR '':'' # json_stringify (snd p)"
  from JObj.prems obtain n where fuel: "fuel = Suc n" by (cases fuel) auto
  show ?case
  proof (cases "ps = []")
    case True
    with fuel show ?thesis by simp
  next
    case False
    then obtain p ps' where ps: "ps = p # ps'" by (cases ps) auto
    have first: "\<exists>cs'. join (map ?m ps) = CHR 0x22 # cs'"
      using ps by (cases ps') (simp_all add: quote_def)
    have "parse_members n (join (map ?m ps) @ CHR ''}'' # rest) = Some (ps, rest)"
    proof (rule parse_members_stringify)
      show "ps \<noteq> []" by (rule False)
      show "2 * length (join (map ?m ps)) + 1 < n"
        using JObj.prems(2) fuel by simp
      show "parse_value fuel' (json_stringify (snd p') @ rest') = Some (snd p', rest')"
        if "p' \<in> set ps" "2 * length (json_stringify (snd p')) < fuel'" "stops rest'" for p' fuel' rest'
      proof -
        have "snd p' \<in> Basic_BNFs.snds p'" by (cases p') simp
        with that JObj.prems(1) show ?thesis by (intro JObj.IH) auto
      qed
    qed
    moreover have "foldl (\<lambda>acc (k, v). AList.update k v acc) [] ps = ps"
      using JObj.prems(1) foldl_update_distinct [of "[]" ps] by simp
    ultimately show ?thesis using first fuel by auto
  qed
qed

lemma json_parse_stringify: "wf_json j \<Longrightarrow> json_parse (json_stringify j) = Some j"
  using parse_value_stringify [of j "2 * length (json_stringify j) + 2" "[]"]
  by (simp add: json_parse_def)

section \<open>Round trip of the persisted progress\<close>

lemma json_of_entry_inj: "json_of_entry e = json_of_entry e' \<Longrightarrow> e = e'"
  by (cases e; cases e') (auto simp: json_of_entry_def split: option.splits)

lemma json_of_entries_inj:
  "map (\<lambda>(k, e). (k, json_of_entry e)) xs = map (\<lambda>(k, e). (k, json_of_entry e)) ys \<Longrightarrow> xs = ys"
proof (induction xs arbitrary: ys)
  case Nil
  then show ?case by simp
next
  case (Cons x xs)
  then obtain y ys' where ys: "ys = y # ys'" by (cases ys) auto
  with Cons show ?case
    by (cases x; cases y) (auto dest: json_of_entry_inj)
qed

lemma json_of_progress_inj: "json_of_progress p = json_of_progress q \<Longrightarrow> p = q"
  by (cases p; cases q) (auto simp: json_of_progress_def dest: json_of_entries_inj)

lemma parseStored_json_of_progress:
  "JSON_parse raw = Some (json_of_progress p) \<Longrightarrow>
   parseStored JSON_parse raw = Inr (json_of_progress p)"
  by (simp add: parseStored_def json_of_progress_def)

lemma sample_progress_roundtrip:
  "json_parse (json_stringify (json_of_progress sample_progress)) =
     Some (json_of_progress sample_progress)"
  unfolding sample_progress_def sample_now_def by code_simp

lemma sample_progress_text: "json_stringify (json_of_progress sample_progress) \<noteq> []"
  by (simp add: json_of_progress_def)

lemma produced_distinct: "produced p \<Longrightarrow> distinct (map fst (perHand p))"
  by (induction rule: produced.induct)
    (simp_all add: DEFAULT_PROGRESS_def recordMiss_def distinct_update)

lemma wf_json_of_progress:
  assumes "distinct (map fst (perHand p))"
  shows "wf_json (json_of_progress p)"
proof -
  have "wf_json (json_of_entry e)" for e
    by (simp add: json_of_entry_def split: option.splits)
  moreover have "fst \<circ> (\<lambda>(k, e). (k, json_of_entry e)) = (fst :: string \<times> HandProgress \<Rightarrow> string)"
    by (rule ext) (simp add: case_prod_beta)
  ultimately show ?thesis
    using assms by (auto simp: json_of_progress_def)
qed

lemma json_stringify_progress_text: "json_stringify (json_of_progress p) \<noteq> []"
  by (simp add: json_of_progress_def)

lemma load_persisted:
  assumes "JSON_parse (JSON_stringify (json_of_progress p)) = Some (json_of_progress p)"
    and "JSON_stringify (json_of_progress p) \<noteq> []"
  shows "loadProgressFromStorage JSON_parse (persistProgress JSON_stringify p (LocalStorage old)) =
           Inr (json_of_progress p)"
  using assms
  by (simp add: loadProgressFromStorage_def persistProgress_def parseStored_json_of_progress)

text \<open>
  C8. Loading what \<open>persistProgress\<close> wrote returns the store that was written: the
  loaded object is the object of that store, and of no other store. This holds for every
  store and every platform whose \<open>JSON.parse\<close> reads back what its \<open>JSON.stringify\<close>
  wrote for the store (a non-empty text); and it holds, with nothing assumed, for the
  reference implementation and every store the program produces.
\<close>

theorem persist_load_roundtrip:
  "(JSON_parse (JSON_stringify (json_of_progress p)) = Some (json_of_progress p) \<and>
    JSON_stringify (json_of_progress p) \<noteq> [] \<longrightarrow>
    loadProgressFromStorage JSON_parse (persistProgress JSON_stringify p (LocalStorage old)) =
      Inr (json_of_progress p)) \<and>
   (produced p \<longrightarrow>
    loadProgressFromStorage json_parse (persistProgress json_stringify p (LocalStorage old)) =
      Inr (json_of_progress p)) \<and>
   (\<forall>q. (json_of_progress q = json_of_progress p) = (q = p))"
proof (intro conjI impI allI)
  assume "JSON_parse (JSON_stringify (json_of_progress p)) = Some (json_of_progress p) \<and>
          JSON_stringify (json_of_progress p) \<noteq> []"
  then show "loadProgressFromStorage JSON_parse
               (persistProgress JSON_stringify p (LocalStorage old)) = Inr (json_of_progress p)"
    by (simp add: load_persisted)
next
  assume "produced p"
  then have "wf_json (json_of_progress p)"
    by (intro wf_json_of_progress produced_distinct)
  then have "json_parse (json_stringify (json_of_progress p)) = Some (json_of_progress p)"
    by (rule json_parse_stringify)
  then show "loadProgressFromStorage json_parse
               (persistProgress json_stringify p (LocalStorage old)) = Inr (json_of_progress p)"
    using json_stringify_progress_text by (rule load_persisted)
next
  fix q
  show "(json_of_progress q = json_of_progress p) = (q = p)"
    by (auto dest: json_of_progress_inj)
qed

theorem persist_load_roundtrip_witness:
  "produced sample_progress \<and>
   sample_progress =
     \<lparr>totalMisses = 1, perHand = [(''AA'', \<lparr>misses = 2, lastMissedAt = Some sample_now\<rparr>)]\<rparr> \<and>
   json_parse (json_stringify (json_of_progress sample_progress)) =
     Some (json_of_progress sample_progress) \<and>
   json_stringify (json_of_progress sample_progress) \<noteq> [] \<and>
   loadProgressFromStorage json_parse
     (persistProgress json_stringify sample_progress (LocalStorage None)) =
     Inr (json_of_progress sample_progress)"
proof -
  have p: "produced sample_progress"
    unfolding sample_progress_def by (intro produced.intros)
  show ?thesis
    using persist_load_roundtrip [of json_parse json_stringify sample_progress None]
          p sample_progress_roundtrip sample_progress_text
    by (simp add: sample_progress_def recordMiss_def DEFAULT_PROGRESS_def)
qed

end
